theory Spec2Isabelle
  imports Complex_Main "HOL-Library.Sublist"
begin

section \<open>Python values shared by the embedding\<close>

text \<open>
  Byte strings (\<^verbatim>\<open>bytes\<close>) and text strings are lists of characters. Exceptions are
  values: \<open>PyException\<close> is a plain \<^verbatim>\<open>Exception(msg)\<close>, the next constructors are the
  subclasses of \<^verbatim>\<open>Exception\<close> that the sources raise or meet, and \<open>PyBaseException\<close>
  stands for what derives from \<^verbatim>\<open>BaseException\<close> only (\<^verbatim>\<open>KeyboardInterrupt\<close>,
  \<^verbatim>\<open>SystemExit\<close>), which a handler \<^verbatim>\<open>except Exception\<close> lets through.
\<close>

type_synonym bytes = string

datatype py_exception =
    PyException string
  | TimedOutException string
  | DNSLookupError string
  | AttributeError string
  | KeyError string
  | PyBaseException string

fun is_Exception :: "py_exception \<Rightarrow> bool" where
  "is_Exception (PyBaseException m) = False"
| "is_Exception e = True"

text \<open>
  A call either returns or raises. A raise keeps the state the callee had reached, since
  Python does not roll mutations back: \<open>Inl (e, s)\<close> is exception \<open>e\<close> raised in state
  \<open>s\<close>, \<open>Inr s\<close> a normal return in state \<open>s\<close>.
\<close>

type_synonym 's result = "(py_exception \<times> 's) + 's"

fun state_of :: "'s result \<Rightarrow> 's" where
  "state_of (Inl (e, s)) = s"
| "state_of (Inr s) = s"

fun raised :: "'s result \<Rightarrow> py_exception option" where
  "raised (Inl (e, s)) = Some e"
| "raised (Inr s) = None"

section \<open>The reactor's clock\<close>

text \<open>
  Modelled from the spec: the clock of \<^verbatim>\<open>MemoryReactorClock\<close> is Twisted's, not a file of the
  repository; the model follows section 4.1 (VirtualClock). \<^verbatim>\<open>callLater(delay, f)\<close>
  records \<open>f\<close> as due at \<open>now + delay\<close> and keeps the calls sorted by due time, calls of
  equal due time in the order they were made (the sort is stable). \<^verbatim>\<open>advance(amount)\<close>
  first adds \<open>amount\<close> to the time, then runs every call that is due, those scheduled
  meanwhile included. Time is a rational number; the program uses floats.

  The callables this repository hands to \<^verbatim>\<open>callLater\<close> are closures; \<open>call\<close> names them:
  \<^verbatim>\<open>FakeTransport.flush\<close>, the \<^verbatim>\<open>_produce\<close> of \<^verbatim>\<open>FakeTransport.registerProducer\<close>, the
  \<^verbatim>\<open>_produce\<close> of \<^verbatim>\<open>FakeChannel.registerProducer\<close>, and the \<^verbatim>\<open>d.callback\<close> of
  \<^verbatim>\<open>ThreadPool.callInThreadWithCallback\<close>.
\<close>

text \<open>
  A job of the thread pool: the function either returns a value or raises, and the number
  tells submissions apart.
\<close>

datatype fn_outcome = Returns string | Raises py_exception

record job =
  job_id :: nat
  func :: fn_outcome

datatype call = FlushCall | TransportProduce | ChannelProduce | PoolCall job

record clock =
  rightNow :: rat
  calls :: "(rat \<times> call) list"

definition sortCalls :: "clock \<Rightarrow> clock" where
  "sortCalls c = c\<lparr>calls := sort_key fst (calls c)\<rparr>"

definition clock_callLater :: "rat \<Rightarrow> call \<Rightarrow> clock \<Rightarrow> clock" where
  "clock_callLater delay f c = sortCalls (c\<lparr>calls := calls c @ [(rightNow c + delay, f)]\<rparr>)"

section \<open>The simulated world (tests/server.py)\<close>

text \<open>
  An \<^verbatim>\<open>IProtocol\<close> object, as far as the transport sees it: its \<^verbatim>\<open>transport\<close> attribute
  (\<open>None\<close> until \<^verbatim>\<open>makeConnection\<close>), the arguments of the \<^verbatim>\<open>dataReceived\<close> and
  \<^verbatim>\<open>connectionLost\<close> calls made to it so far, and whether these methods raise:
  \<open>dataReceived_raises\<close> gets the chunks received before and the new chunk.
\<close>

record protocol =
  transport_attr :: "nat option"
  received :: "bytes list"
  dataReceived_raises :: "bytes list \<Rightarrow> bytes \<Rightarrow> py_exception option"
  lost :: "string option list"
  connectionLost_raises :: "py_exception option"

text \<open>
  A producer, as far as its consumer sees it: its identity and what its
  \<^verbatim>\<open>resumeProducing()\<close> does: return \<^verbatim>\<open>None\<close>, return a Deferred (fired with a result,
  fired with a failure, or not fired yet), or raise. The calls made to producers are logged
  in the world.
\<close>

datatype resume_ret =
    ReturnsNone
  | DeferredFired
  | DeferredFailed
  | DeferredPending
  | ResumeRaises py_exception

record producer =
  ident :: nat
  resume_returns :: resume_ret

datatype producer_call = ResumeProducingCall nat | PauseProducingCall nat

record fake_transport =
  disconnecting :: bool
  disconnected :: bool
  connected_flag :: bool
  buffer :: bytes
  producer :: "producer option"
  producerStreaming :: "bool option"
  autoflush :: bool

record fake_channel =
  channel_producer :: "producer option"
  channel_producerStreaming :: "bool option"

text \<open>The calls a thread-pool job makes: the function, then \<^verbatim>\<open>onResult(success, result)\<close>.\<close>

datatype pool_result = Value string | Failure py_exception

datatype pool_event = FunctionCalled nat | OnResult nat bool pool_result

text \<open>
  The world: the reactor, one \<^verbatim>\<open>FakeTransport\<close> with the protocol it writes into
  (\<^verbatim>\<open>other\<close>) and the protocol that owns it (\<^verbatim>\<open>_protocol\<close>, optional), one
  \<^verbatim>\<open>FakeChannel\<close>, and the logs of the calls made to producers and by the thread pool.
  \<open>pumps_awaiting\<close> counts the callbacks \<^verbatim>\<open>_produce\<close> has left on Deferreds that have not
  fired.
\<close>

record world =
  reactor :: clock
  transport :: fake_transport
  other :: protocol
  protocol :: "protocol option"
  channel :: fake_channel
  producer_calls :: "producer_call list"
  pumps_awaiting :: nat
  pool_log :: "pool_event list"

definition callLater :: "rat \<Rightarrow> call \<Rightarrow> world \<Rightarrow> world" where
  "callLater delay f w = w\<lparr>reactor := clock_callLater delay f (reactor w)\<rparr>"

subsection \<open>\<^verbatim>\<open>FakeTransport\<close>\<close>

text \<open>
  \<^verbatim>\<open>self._protocol.connectionLost(reason)\<close>, when \<^verbatim>\<open>_protocol\<close> is set: the call is
  logged and the protocol's exception, if any, propagates.
\<close>

definition notify_connectionLost :: "string option \<Rightarrow> world \<Rightarrow> world result" where
  "notify_connectionLost reason w =
     (case protocol w of
        None \<Rightarrow> Inr w
      | Some p \<Rightarrow>
          (let w' = w\<lparr>protocol := Some (p\<lparr>lost := lost p @ [reason]\<rparr>)\<rparr>
           in case connectionLost_raises p of
                Some e \<Rightarrow> Inl (e, w')
              | None \<Rightarrow> Inr w'))"

definition loseConnection :: "string option \<Rightarrow> world \<Rightarrow> world result" where
  "loseConnection reason w =
     (if \<not> disconnecting (transport w) then
        (case notify_connectionLost reason (w\<lparr>transport := (transport w)\<lparr>disconnecting := True\<rparr>\<rparr>) of
           Inl ew \<Rightarrow> Inl ew
         | Inr w' \<Rightarrow>
             (if buffer (transport w') \<noteq> [] then Inr w'
              else Inr (w'\<lparr>transport := (transport w')\<lparr>connected_flag := False, disconnected := True\<rparr>\<rparr>)))
      else Inr w)"

definition abortConnection :: "world \<Rightarrow> world result" where
  "abortConnection w =
     (case (if \<not> disconnecting (transport w)
            then notify_connectionLost None (w\<lparr>transport := (transport w)\<lparr>disconnecting := True\<rparr>\<rparr>)
            else Inr w) of
        Inl ew \<Rightarrow> Inl ew
      | Inr w' \<Rightarrow> Inr (w'\<lparr>transport := (transport w')\<lparr>disconnected := True\<rparr>\<rparr>))"

definition pauseProducing :: "world \<Rightarrow> world result" where
  "pauseProducing w =
     (case producer (transport w) of
        None \<Rightarrow> Inr w
      | Some p \<Rightarrow> Inr (w\<lparr>producer_calls := producer_calls w @ [PauseProducingCall (ident p)]\<rparr>))"

text \<open>
  \<^verbatim>\<open>self.producer.resumeProducing()\<close>: the call is logged; only a raise of the producer
  matters to callers that drop the returned value.
\<close>

definition call_resumeProducing :: "producer \<Rightarrow> world \<Rightarrow> world result" where
  "call_resumeProducing p w =
     (let w' = w\<lparr>producer_calls := producer_calls w @ [ResumeProducingCall (ident p)]\<rparr>
      in case resume_returns p of
           ResumeRaises e \<Rightarrow> Inl (e, w')
         | _ \<Rightarrow> Inr w')"

definition resumeProducing :: "world \<Rightarrow> world result" where
  "resumeProducing w =
     (case producer (transport w) of
        None \<Rightarrow> Inr w
      | Some p \<Rightarrow> call_resumeProducing p w)"

definition unregisterProducer :: "world \<Rightarrow> world result" where
  "unregisterProducer w =
     (case producer (transport w) of
        None \<Rightarrow> Inr w
      | Some p \<Rightarrow> Inr (w\<lparr>transport := (transport w)\<lparr>producer := None\<rparr>\<rparr>))"

definition registerProducer :: "producer \<Rightarrow> bool \<Rightarrow> world \<Rightarrow> world result" where
  "registerProducer p streaming w =
     (let w' = w\<lparr>transport := (transport w)\<lparr>producer := Some p, producerStreaming := Some streaming\<rparr>\<rparr>
      in if \<not> streaming then Inr (callLater 0 TransportProduce w') else Inr w')"

text \<open>
  The \<^verbatim>\<open>_produce\<close> of \<^verbatim>\<open>FakeTransport.registerProducer\<close>. It reads \<^verbatim>\<open>self.producer\<close>
  without a test, so \<^verbatim>\<open>None\<close> there is an \<^verbatim>\<open>AttributeError\<close>, and so is a
  \<^verbatim>\<open>resumeProducing\<close> that returns \<^verbatim>\<open>None\<close> (at \<^verbatim>\<open>d.addCallback\<close>). The callback added to
  the Deferred schedules the next \<^verbatim>\<open>_produce\<close> after 0.1: at once when the Deferred has
  fired with a result, never when it has fired with a failure, and when it fires otherwise.
\<close>

definition transport_produce :: "world \<Rightarrow> world result" where
  "transport_produce w =
     (case producer (transport w) of
        None \<Rightarrow> Inl (AttributeError ''resumeProducing'', w)
      | Some p \<Rightarrow>
          (case call_resumeProducing p w of
             Inl ew \<Rightarrow> Inl ew
           | Inr w' \<Rightarrow>
               (case resume_returns p of
                  ReturnsNone \<Rightarrow> Inl (AttributeError ''addCallback'', w')
                | DeferredFired \<Rightarrow> Inr (callLater (1 / 10) TransportProduce w')
                | DeferredFailed \<Rightarrow> Inr w'
                | DeferredPending \<Rightarrow> Inr (w'\<lparr>pumps_awaiting := pumps_awaiting w' + 1\<rparr>)
                | ResumeRaises e \<Rightarrow> Inl (e, w'))))"

text \<open>A producer fires a Deferred that \<^verbatim>\<open>_produce\<close> is waiting on.\<close>

definition producer_deferred_fires :: "world \<Rightarrow> world result" where
  "producer_deferred_fires w =
     (if pumps_awaiting w = 0 then Inr w
      else Inr (callLater (1 / 10) TransportProduce (w\<lparr>pumps_awaiting := pumps_awaiting w - 1\<rparr>)))"

text \<open>\<^verbatim>\<open>FakeTransport.write\<close>; the name \<open>write\<close> is taken in Isabelle.\<close>

definition write' :: "bytes \<Rightarrow> world \<Rightarrow> world result" where
  "write' byt w =
     (if disconnecting (transport w) then
        Inl (PyException ''Writing to disconnecting FakeTransport'', w)
      else
        (let w' = w\<lparr>transport := (transport w)\<lparr>buffer := buffer (transport w) @ byt\<rparr>\<rparr>
         in if autoflush (transport w') then Inr (callLater 0 FlushCall w') else Inr w'))"

fun writeSequence :: "bytes list \<Rightarrow> world \<Rightarrow> world result" where
  "writeSequence [] w = Inr w"
| "writeSequence (x # seq) w =
     (case write' x w of
        Inl ew \<Rightarrow> Inl ew
      | Inr w' \<Rightarrow> writeSequence seq w')"

text \<open>
  \<^verbatim>\<open>self.buffer[:maxbytes]\<close>: a negative \<^verbatim>\<open>maxbytes\<close> counts from the end, and
  \<^verbatim>\<open>maxbytes=None\<close> takes the whole buffer.
\<close>

definition to_write_of :: "int option \<Rightarrow> bytes \<Rightarrow> bytes" where
  "to_write_of maxbytes buf =
     (case maxbytes of
        None \<Rightarrow> buf
      | Some m \<Rightarrow> (if 0 \<le> m then take (nat m) buf else take (length buf - nat (- m)) buf))"

text \<open>
  \<^verbatim>\<open>self.other.dataReceived(to_write)\<close>: the call is logged with its argument, whether it
  returns or raises.
\<close>

definition call_dataReceived :: "bytes \<Rightarrow> world \<Rightarrow> world result" where
  "call_dataReceived chunk w =
     (let w' = w\<lparr>other := (other w)\<lparr>received := received (other w) @ [chunk]\<rparr>\<rparr>
      in case dataReceived_raises (other w) (received (other w)) chunk of
           Some e \<Rightarrow> Inl (e, w')
         | None \<Rightarrow> Inr w')"

definition flush :: "int option \<Rightarrow> world \<Rightarrow> world result" where
  "flush maxbytes w =
     (if buffer (transport w) = [] then Inr w
      else if disconnected (transport w) then Inr w
      else if transport_attr (other w) = None then
        (if autoflush (transport w) then Inr (callLater 0 FlushCall w) else Inr w)
      else
        (let to_write = to_write_of maxbytes (buffer (transport w))
         in case call_dataReceived to_write w of
              Inl (e, w1) \<Rightarrow> (if is_Exception e then Inr w1 else Inl (e, w1))
            | Inr w1 \<Rightarrow>
                (let w2 = w1\<lparr>transport := (transport w1)\<lparr>buffer := drop (length to_write) (buffer (transport w1))\<rparr>\<rparr>;
                     w3 = (if buffer (transport w2) \<noteq> [] \<and> autoflush (transport w2)
                           then callLater 0 FlushCall w2 else w2)
                 in if buffer (transport w3) = [] \<and> disconnecting (transport w3)
                    then Inr (w3\<lparr>transport := (transport w3)\<lparr>disconnected := True\<rparr>\<rparr>)
                    else Inr w3)))"

subsection \<open>\<^verbatim>\<open>FakeChannel\<close>\<close>

definition channel_registerProducer :: "producer \<Rightarrow> bool \<Rightarrow> world \<Rightarrow> world result" where
  "channel_registerProducer p streaming w =
     (let w' = w\<lparr>channel := (channel w)\<lparr>channel_producer := Some p, channel_producerStreaming := Some streaming\<rparr>\<rparr>
      in if \<not> streaming then Inr (callLater 0 ChannelProduce w') else Inr w')"

definition channel_unregisterProducer :: "world \<Rightarrow> world result" where
  "channel_unregisterProducer w =
     (case channel_producer (channel w) of
        None \<Rightarrow> Inr w
      | Some p \<Rightarrow> Inr (w\<lparr>channel := (channel w)\<lparr>channel_producer := None\<rparr>\<rparr>))"

text \<open>The \<^verbatim>\<open>_produce\<close> of \<^verbatim>\<open>FakeChannel.registerProducer\<close>, which tests \<^verbatim>\<open>self._producer\<close>.\<close>

definition channel_produce :: "world \<Rightarrow> world result" where
  "channel_produce w =
     (case channel_producer (channel w) of
        None \<Rightarrow> Inr w
      | Some p \<Rightarrow>
          (case call_resumeProducing p w of
             Inl ew \<Rightarrow> Inl ew
           | Inr w' \<Rightarrow> Inr (callLater (1 / 10) ChannelProduce w')))"

subsection \<open>\<^verbatim>\<open>ThreadPool\<close>\<close>

text \<open>
  \<^verbatim>\<open>callInThreadWithCallback\<close> builds a Deferred with two links, the function and then
  \<^verbatim>\<open>_\<close> (added with \<^verbatim>\<open>addBoth\<close>), and makes one \<^verbatim>\<open>callLater(0, d.callback, True)\<close>.
  Firing the Deferred runs the function; a raise becomes a \<^verbatim>\<open>Failure\<close>; \<^verbatim>\<open>_\<close> then calls
  \<^verbatim>\<open>onResult(False, failure)\<close> or \<^verbatim>\<open>onResult(True, result)\<close>, in the same firing. The
  Deferred catches whatever \<^verbatim>\<open>onResult\<close> raises, so the firing itself never raises.
\<close>

definition callInThreadWithCallback :: "job \<Rightarrow> world \<Rightarrow> world result" where
  "callInThreadWithCallback j w = Inr (callLater 0 (PoolCall j) w)"

definition fire_pool_deferred :: "job \<Rightarrow> world \<Rightarrow> world result" where
  "fire_pool_deferred j w =
     (let w' = w\<lparr>pool_log := pool_log w @ [FunctionCalled (job_id j)]\<rparr>
      in case func j of
           Raises e \<Rightarrow> Inr (w'\<lparr>pool_log := pool_log w' @ [OnResult (job_id j) False (Failure e)]\<rparr>)
         | Returns v \<Rightarrow> Inr (w'\<lparr>pool_log := pool_log w' @ [OnResult (job_id j) True (Value v)]\<rparr>))"

subsection \<open>Running the reactor\<close>

fun run_call :: "call \<Rightarrow> world \<Rightarrow> world result" where
  "run_call FlushCall w = flush None w"
| "run_call TransportProduce w = transport_produce w"
| "run_call ChannelProduce w = channel_produce w"
| "run_call (PoolCall j) w = fire_pool_deferred j w"

text \<open>
  One turn of the loop of \<^verbatim>\<open>advance\<close>: when the first call is due, it is taken off the
  list and run, and the list is sorted again.
\<close>

definition sort_reactor :: "world \<Rightarrow> world" where
  "sort_reactor w = w\<lparr>reactor := sortCalls (reactor w)\<rparr>"

definition next_due :: "world \<Rightarrow> call option" where
  "next_due w =
     (case calls (reactor w) of
        [] \<Rightarrow> None
      | (t, f) # rest \<Rightarrow> (if t \<le> rightNow (reactor w) then Some f else None))"

definition pop_call :: "world \<Rightarrow> world" where
  "pop_call w = w\<lparr>reactor := (reactor w)\<lparr>calls := tl (calls (reactor w))\<rparr>\<rparr>"

definition run_next :: "world \<Rightarrow> world result" where
  "run_next w =
     (case next_due w of
        None \<Rightarrow> Inr w
      | Some f \<Rightarrow>
          (case run_call f (pop_call w) of
             Inl ew \<Rightarrow> Inl ew
           | Inr w' \<Rightarrow> Inr (sort_reactor w')))"

text \<open>
  The loop runs as long as a call is due, which can be for ever (a flush that keeps
  rescheduling itself at delay 0), so it takes fuel: the number of calls it may run.
  \<open>None\<close> is a loop that has not stopped within the fuel.
\<close>

fun run_due :: "nat \<Rightarrow> world \<Rightarrow> world result option" where
  "run_due n w =
     (case next_due w of
        None \<Rightarrow> Some (Inr w)
      | Some f \<Rightarrow>
          (case n of
             0 \<Rightarrow> None
           | Suc m \<Rightarrow>
               (case run_call f (pop_call w) of
                  Inl ew \<Rightarrow> Some (Inl ew)
                | Inr w' \<Rightarrow> run_due m (sort_reactor w'))))"

definition tick :: "rat \<Rightarrow> world \<Rightarrow> world" where
  "tick amount w =
     sort_reactor (w\<lparr>reactor := (reactor w)\<lparr>rightNow := rightNow (reactor w) + amount\<rparr>\<rparr>)"

definition advance :: "nat \<Rightarrow> rat \<Rightarrow> world \<Rightarrow> world result option" where
  "advance fuel amount w = run_due fuel (tick amount w)"

subsection \<open>Histories\<close>

text \<open>
  \<^verbatim>\<open>makeConnection(transport)\<close> of the peer protocol sets its \<^verbatim>\<open>transport\<close> attribute.
\<close>

definition other_makeConnection :: "nat \<Rightarrow> world \<Rightarrow> world result" where
  "other_makeConnection t w = Inr (w\<lparr>other := (other w)\<lparr>transport_attr := Some t\<rparr>\<rparr>)"

text \<open>
  What can happen to the world, one call at a time: a method of the transport, of the
  channel or of the thread pool is called (by the protocol that owns the transport, by
  the test, or from a callback), the peer is connected, a producer fires a Deferred, the
  clock's time moves, or the reactor runs the next call that is due. An
  \<^verbatim>\<open>advance(amount)\<close> is \<open>Tick amount\<close> followed by \<open>RunNext\<close> for as long as a call is
  due.
\<close>

datatype action =
    Write bytes
  | WriteSequence "bytes list"
  | Flush "int option"
  | LoseConnection "string option"
  | AbortConnection
  | PauseProducing
  | ResumeProducing
  | RegisterProducer producer bool
  | UnregisterProducer
  | ProducerDeferredFires
  | ChannelRegisterProducer producer bool
  | ChannelUnregisterProducer
  | CallInThreadWithCallback job
  | OtherMakeConnection nat
  | Tick rat
  | RunNext

fun perform :: "action \<Rightarrow> world \<Rightarrow> world result" where
  "perform (Write byt) w = write' byt w"
| "perform (WriteSequence seq) w = writeSequence seq w"
| "perform (Flush maxbytes) w = flush maxbytes w"
| "perform (LoseConnection reason) w = loseConnection reason w"
| "perform AbortConnection w = abortConnection w"
| "perform PauseProducing w = pauseProducing w"
| "perform ResumeProducing w = resumeProducing w"
| "perform (RegisterProducer p streaming) w = registerProducer p streaming w"
| "perform UnregisterProducer w = unregisterProducer w"
| "perform ProducerDeferredFires w = producer_deferred_fires w"
| "perform (ChannelRegisterProducer p streaming) w = channel_registerProducer p streaming w"
| "perform ChannelUnregisterProducer w = channel_unregisterProducer w"
| "perform (CallInThreadWithCallback j) w = callInThreadWithCallback j w"
| "perform (OtherMakeConnection t) w = other_makeConnection t w"
| "perform (Tick amount) w = Inr (tick amount w)"
| "perform RunNext w = run_next w"

text \<open>
  A history is a list of such calls. A caller may catch an exception and go on, so after
  a call that raised the history continues from the state the raise left.
\<close>

fun exec :: "action list \<Rightarrow> world \<Rightarrow> world" where
  "exec [] w = w"
| "exec (a # as) w = exec as (state_of (perform a w))"

fun is_write :: "action \<Rightarrow> bool" where
  "is_write (Write byt) = True"
| "is_write (WriteSequence seq) = True"
| "is_write a = False"

text \<open>The bytes a history hands to \<^verbatim>\<open>write\<close>, in call order.\<close>

fun written :: "action list \<Rightarrow> bytes" where
  "written [] = []"
| "written (Write byt # as) = byt @ written as"
| "written (WriteSequence seq # as) = concat seq @ written as"
| "written (a # as) = written as"

text \<open>
  The histories of writes and flushes: \<^verbatim>\<open>write\<close>, \<^verbatim>\<open>writeSequence\<close>, \<^verbatim>\<open>flush\<close> with any
  \<^verbatim>\<open>maxbytes\<close>, and the reactor's clock running what is scheduled.
\<close>

fun write_or_flush :: "action \<Rightarrow> bool" where
  "write_or_flush (Write byt) = True"
| "write_or_flush (WriteSequence seq) = True"
| "write_or_flush (Flush maxbytes) = True"
| "write_or_flush (Tick amount) = True"
| "write_or_flush RunNext = True"
| "write_or_flush a = False"

text \<open>
  The byte stream of the connection: what the peer has been handed, followed by what is
  still buffered. A world is steady when the transport is connected (neither flag of
  disconnection is set) and the peer's \<^verbatim>\<open>dataReceived\<close> never raises.
\<close>

definition stream :: "world \<Rightarrow> bytes" where
  "stream w = concat (received (other w)) @ buffer (transport w)"

definition steady :: "world \<Rightarrow> bool" where
  "steady w \<longleftrightarrow> \<not> disconnecting (transport w) \<and> \<not> disconnected (transport w)
     \<and> (\<forall>before chunk. dataReceived_raises (other w) before chunk = None)"

subsection \<open>Worlds to start from\<close>

text \<open>
  \<^verbatim>\<open>FakeTransport(other, reactor, _protocol)\<close> with the defaults of its attributes, on a
  reactor at time 0 with nothing scheduled, and a \<^verbatim>\<open>FakeChannel\<close> without a producer.
\<close>

definition new_transport :: fake_transport where
  "new_transport =
     \<lparr>disconnecting = False, disconnected = False, connected_flag = True, buffer = [],
      producer = None, producerStreaming = None, autoflush = True\<rparr>"

definition new_world :: "protocol \<Rightarrow> protocol option \<Rightarrow> world" where
  "new_world peer owner =
     \<lparr>reactor = \<lparr>rightNow = 0, calls = []\<rparr>,
      transport = new_transport,
      other = peer,
      protocol = owner,
      channel = \<lparr>channel_producer = None, channel_producerStreaming = None\<rparr>,
      producer_calls = [],
      pumps_awaiting = 0,
      pool_log = []\<rparr>"

text \<open>A protocol whose methods never raise, connected or not yet connected.\<close>

definition quiet_protocol :: "nat option \<Rightarrow> protocol" where
  "quiet_protocol t =
     \<lparr>transport_attr = t, received = [], dataReceived_raises = (\<lambda>before chunk. None),
      lost = [], connectionLost_raises = None\<rparr>"

text \<open>A connected protocol whose \<^verbatim>\<open>dataReceived\<close> always raises the given exception.\<close>

definition raising_protocol :: "py_exception \<Rightarrow> protocol" where
  "raising_protocol e =
     \<lparr>transport_attr = Some 1, received = [], dataReceived_raises = (\<lambda>before chunk. Some e),
      lost = [], connectionLost_raises = None\<rparr>"

text \<open>
  Worlds for the examples: a transport with a connected, quiet peer; the same after
  \<^verbatim>\<open>write(b"abc")\<close>; the same with a peer that has no transport yet; a transport made
  with \<^verbatim>\<open>autoflush=False\<close> and \<^verbatim>\<open>buffer=b"abc"\<close> whose peer has no transport yet; a
  transport after \<^verbatim>\<open>write(b"abc")\<close> whose peer's \<^verbatim>\<open>dataReceived\<close> raises an
  \<^verbatim>\<open>Exception\<close>, and one whose peer's \<^verbatim>\<open>dataReceived\<close> raises a \<^verbatim>\<open>KeyboardInterrupt\<close>; and
  the buffered world after \<^verbatim>\<open>abortConnection()\<close>.
\<close>

definition connected_world :: world where
  "connected_world = new_world (quiet_protocol (Some 1)) None"

definition buffered_world :: world where
  "buffered_world = state_of (write' ''abc'' connected_world)"

definition unconnected_world :: world where
  "unconnected_world = state_of (write' ''abc'' (new_world (quiet_protocol None) None))"

definition stalled_world :: world where
  "stalled_world =
     (new_world (quiet_protocol None) None)
       \<lparr>transport := new_transport\<lparr>buffer := ''abc'', autoflush := False\<rparr>\<rparr>"

definition raising_world :: world where
  "raising_world = state_of (write' ''abc'' (new_world (raising_protocol (PyException ''boom'')) None))"

definition interrupted_world :: world where
  "interrupted_world =
     state_of (write' ''abc'' (new_world (raising_protocol (PyBaseException ''KeyboardInterrupt'')) None))"

definition aborted_world :: world where
  "aborted_world = buffered_world\<lparr>transport := (transport buffered_world)\<lparr>disconnecting := True, disconnected := True\<rparr>\<rparr>"

section \<open>\<^verbatim>\<open>wait_until_result\<close> (tests/server.py)\<close>

text \<open>
  The request, its channel's producer and the clock are objects of Twisted and of
  \<^verbatim>\<open>synapse.http.site\<close>; the loop only calls them, so they are parameters: \<open>'s\<close> is
  the state of everything they touch, \<open>clock_run\<close> is \<^verbatim>\<open>clock.run()\<close>,
  \<open>request_finished\<close> reads \<^verbatim>\<open>request.finished\<close>, \<open>channel_has_producer\<close> is the truth
  value of \<^verbatim>\<open>request._channel._producer\<close>, \<open>producer_resume\<close> is its
  \<^verbatim>\<open>resumeProducing()\<close> and \<open>clock_advance\<close> is \<^verbatim>\<open>clock.advance\<close>. Each call returns
  or raises; the loop has no handler, so a raise leaves it.
\<close>

record 's waiting =
  clock_run :: "'s \<Rightarrow> 's result"
  request_finished :: "'s \<Rightarrow> bool"
  channel_has_producer :: "'s \<Rightarrow> bool"
  producer_resume :: "'s \<Rightarrow> 's result"
  clock_advance :: "rat \<Rightarrow> 's \<Rightarrow> 's result"

definition resume_if_producer :: "'s waiting \<Rightarrow> 's \<Rightarrow> 's result" where
  "resume_if_producer env s =
     (if channel_has_producer env s then producer_resume env s else Inr s)"

function wait_loop :: "'s waiting \<Rightarrow> int \<Rightarrow> int \<Rightarrow> 's \<Rightarrow> 's result" where
  "wait_loop env timeout x s =
     (if request_finished env s then Inr s
      else
        (case resume_if_producer env s of
           Inl es \<Rightarrow> Inl es
         | Inr s1 \<Rightarrow>
             (if x + 1 > timeout then
                Inl (TimedOutException ''Timed out waiting for request to finish.'', s1)
              else
                (case clock_advance env (1 / 10) s1 of
                   Inl es \<Rightarrow> Inl es
                 | Inr s2 \<Rightarrow> wait_loop env timeout (x + 1) s2))))"
  by pat_completeness auto
termination
  by (relation "measure (\<lambda>(env, timeout, x, s). nat (timeout - x))") auto

declare wait_loop.simps [simp del]

definition wait_until_result :: "'s waiting \<Rightarrow> int \<Rightarrow> 's \<Rightarrow> 's result" where
  "wait_until_result env timeout s =
     (case clock_run env s of
        Inl es \<Rightarrow> Inl es
      | Inr s0 \<Rightarrow> wait_loop env timeout 0 s0)"

text \<open>
  One round of the loop that does not time out: the producer is resumed if there is one,
  then the clock advances by 0.1. \<open>never_raises\<close>: no call of the environment raises.
\<close>

definition round_of :: "'s waiting \<Rightarrow> 's \<Rightarrow> 's" where
  "round_of env s = state_of (clock_advance env (1 / 10) (state_of (resume_if_producer env s)))"

definition never_raises :: "'s waiting \<Rightarrow> bool" where
  "never_raises env \<longleftrightarrow>
     (\<forall>s. raised (clock_run env s) = None) \<and> (\<forall>s. raised (producer_resume env s) = None)
     \<and> (\<forall>d s. raised (clock_advance env d s) = None)"

text \<open>
  An environment whose state counts the calls of \<^verbatim>\<open>clock.advance\<close>; the request is
  finished from the given count on, or never.
\<close>

definition counting_env :: "nat option \<Rightarrow> nat waiting" where
  "counting_env done_at =
     \<lparr>clock_run = Inr,
      request_finished = (\<lambda>n. case done_at of None \<Rightarrow> False | Some d \<Rightarrow> d \<le> n),
      channel_has_producer = (\<lambda>n. False),
      producer_resume = Inr,
      clock_advance = (\<lambda>d n. Inr (Suc n))\<rparr>"

section \<open>Stepping the clock\<close>









definition job_done_world :: world where
  "job_done_world =
     connected_world\<lparr>pool_log := [FunctionCalled 7, OnResult 7 True (Value ''ok'')]\<rparr>"

definition failing_job :: job where
  "failing_job = \<lparr>job_id = 8, func = Raises (PyException ''no'')\<rparr>"

definition demo_job :: job where
  "demo_job = \<lparr>job_id = 7, func = Returns ''ok''\<rparr>"

definition submitted_world :: world where
  "submitted_world = state_of (callInThreadWithCallback demo_job connected_world)"

section \<open>The resolver of \<^verbatim>\<open>ThreadedMemoryReactorClock\<close> (tests/server.py)\<close>

text \<open>
  \<^verbatim>\<open>succeed(x)\<close> and \<^verbatim>\<open>fail(e)\<close> of \<^verbatim>\<open>twisted.internet.defer\<close> build a Deferred that
  has already fired, with a result or with a failure.
\<close>

datatype 'a deferred = succeed 'a | fail py_exception

text \<open>
  \<^verbatim>\<open>lookups\<close> is the dict of the reactor; \<^verbatim>\<open>"OH NO: unknown %s" % (name,)\<close> is the
  message of the error.
\<close>

definition getHostByName :: "(string \<rightharpoonup> string) \<Rightarrow> string \<Rightarrow> string deferred" where
  "getHostByName lookups name =
     (case lookups name of
        None \<Rightarrow> fail (DNSLookupError (''OH NO: unknown '' @ name))
      | Some a \<Rightarrow> succeed a)"

section \<open>\<^verbatim>\<open>ThirdPartyEventRules\<close> (synapse/events/third_party_rules.py)\<close>

text \<open>
  The data store and the admin's rules module are collaborators: records of the functions
  the class calls. A state map is a dict from a state key to an event id, kept as an
  association list in the dict's iteration order. Every \<^verbatim>\<open>await\<close> on the store or on
  the event context is logged, so that "without consulting the store" can be stated.
\<close>

type_synonym event_id = string
type_synonym room_id = string
type_synonym state_key = "string \<times> string"

datatype store_call =
    GetPrevStateIds
  | GetEvent event_id
  | GetFilteredCurrentStateIds room_id
  | GetEvents "event_id list"

record 'ev datastore =
  get_event :: "event_id \<Rightarrow> 'ev option"
  get_filtered_current_state_ids :: "room_id \<Rightarrow> (state_key \<times> event_id) list"
  get_events :: "event_id list \<Rightarrow> (event_id \<rightharpoonup> 'ev)"

record ('ev, 'rq, 'cf) rules_module =
  m_check_event_allowed :: "'ev \<Rightarrow> (state_key \<times> 'ev option) list \<Rightarrow> bool"
  m_on_create_room :: "'rq \<Rightarrow> 'cf \<Rightarrow> bool \<Rightarrow> bool"
  m_check_threepid_can_be_invited :: "string \<Rightarrow> string \<Rightarrow> (state_key \<times> 'ev) list \<Rightarrow> bool"
  m_check_room_can_be_added :: "room_id \<Rightarrow> (state_key \<times> 'ev) list \<Rightarrow> bool"

record ('ev, 'rq, 'cf) ThirdPartyEventRules =
  third_party_rules :: "('ev, 'rq, 'cf) rules_module option"
  store :: "'ev datastore"

text \<open>
  \<^verbatim>\<open>__init__\<close>: \<^verbatim>\<open>hs.config.third_party_event_rules\<close> is either falsy or a pair of a
  module (possibly \<^verbatim>\<open>None\<close>) and its config; the module is instantiated only when it is
  not \<^verbatim>\<open>None\<close>.
\<close>

definition ThirdPartyEventRules_init ::
  "'ev datastore \<Rightarrow> (('mc \<Rightarrow> ('ev, 'rq, 'cf) rules_module) option \<times> 'mc) option
     \<Rightarrow> ('ev, 'rq, 'cf) ThirdPartyEventRules" where
  "ThirdPartyEventRules_init st cfg =
     (case cfg of
        None \<Rightarrow> \<lparr>third_party_rules = None, store = st\<rparr>
      | Some (None, c) \<Rightarrow> \<lparr>third_party_rules = None, store = st\<rparr>
      | Some (Some module_ctor, c) \<Rightarrow> \<lparr>third_party_rules = Some (module_ctor c), store = st\<rparr>)"

text \<open>
  \<^verbatim>\<open>_get_state_events_dict_for_room\<close>: two store calls, then
  \<^verbatim>\<open>room_state_events[event_id]\<close> for every state id, which raises \<^verbatim>\<open>KeyError\<close> on an
  event the store did not return.
\<close>

fun state_events_of ::
  "(event_id \<rightharpoonup> 'ev) \<Rightarrow> (state_key \<times> event_id) list \<Rightarrow> py_exception + (state_key \<times> 'ev) list" where
  "state_events_of evs [] = Inr []"
| "state_events_of evs ((k, eid) # rest) =
     (case evs eid of
        None \<Rightarrow> Inl (KeyError eid)
      | Some ev \<Rightarrow>
          (case state_events_of evs rest of
             Inl e \<Rightarrow> Inl e
           | Inr r \<Rightarrow> Inr ((k, ev) # r)))"

definition get_state_events_dict_for_room ::
  "('ev, 'rq, 'cf) ThirdPartyEventRules \<Rightarrow> room_id
     \<Rightarrow> (py_exception + (state_key \<times> 'ev) list) \<times> store_call list" where
  "get_state_events_dict_for_room self rid =
     (let state_ids = get_filtered_current_state_ids (store self) rid;
          room_state_events = get_events (store self) (map snd state_ids)
      in (state_events_of room_state_events state_ids,
          [GetFilteredCurrentStateIds rid, GetEvents (map snd state_ids)]))"

text \<open>
  The four hooks return the verdict (or the exception raised on the way) and the list of
  store and context calls they awaited. \<^verbatim>\<open>prev_state_ids\<close> is what
  \<^verbatim>\<open>context.get_prev_state_ids()\<close> returns.
\<close>

definition check_event_allowed ::
  "('ev, 'rq, 'cf) ThirdPartyEventRules \<Rightarrow> 'ev \<Rightarrow> (state_key \<times> event_id) list
     \<Rightarrow> (py_exception + bool) \<times> store_call list" where
  "check_event_allowed self event prev_state_ids =
     (case third_party_rules self of
        None \<Rightarrow> (Inr True, [])
      | Some rules \<Rightarrow>
          (let state_events = map (\<lambda>(k, eid). (k, get_event (store self) eid)) prev_state_ids
           in (Inr (m_check_event_allowed rules event state_events),
               GetPrevStateIds # map (\<lambda>(k, eid). GetEvent eid) prev_state_ids)))"

definition on_create_room ::
  "('ev, 'rq, 'cf) ThirdPartyEventRules \<Rightarrow> 'rq \<Rightarrow> 'cf \<Rightarrow> bool
     \<Rightarrow> (py_exception + bool) \<times> store_call list" where
  "on_create_room self requester config is_requester_admin =
     (case third_party_rules self of
        None \<Rightarrow> (Inr True, [])
      | Some rules \<Rightarrow> (Inr (m_on_create_room rules requester config is_requester_admin), []))"

definition check_threepid_can_be_invited ::
  "('ev, 'rq, 'cf) ThirdPartyEventRules \<Rightarrow> string \<Rightarrow> string \<Rightarrow> room_id
     \<Rightarrow> (py_exception + bool) \<times> store_call list" where
  "check_threepid_can_be_invited self medium address rid =
     (case third_party_rules self of
        None \<Rightarrow> (Inr True, [])
      | Some rules \<Rightarrow>
          (case get_state_events_dict_for_room self rid of
             (Inl e, awaited) \<Rightarrow> (Inl e, awaited)
           | (Inr state_events, awaited) \<Rightarrow>
               (Inr (m_check_threepid_can_be_invited rules medium address state_events), awaited)))"

definition check_room_can_be_added_to_public_rooms_directory ::
  "('ev, 'rq, 'cf) ThirdPartyEventRules \<Rightarrow> room_id
     \<Rightarrow> (py_exception + bool) \<times> store_call list" where
  "check_room_can_be_added_to_public_rooms_directory self rid =
     (case third_party_rules self of
        None \<Rightarrow> (Inr True, [])
      | Some rules \<Rightarrow>
          (case get_state_events_dict_for_room self rid of
             (Inl e, awaited) \<Rightarrow> (Inl e, awaited)
           | (Inr state_events, awaited) \<Rightarrow> (Inr (m_check_room_can_be_added rules rid state_events), awaited)))"

text \<open>
  A server whose config names no module, over a store that holds one event; the room's
  state and the previous state both name that event.
\<close>

definition demo_store :: "string datastore" where
  "demo_store =
     \<lparr>get_event = [''$e1'' \<mapsto> ''create''],
      get_filtered_current_state_ids = (\<lambda>rid. [((''m.room.create'', []), ''$e1'')]),
      get_events = (\<lambda>ids. [''$e1'' \<mapsto> ''create''])\<rparr>"

definition demo_rules :: "(string, string, string) ThirdPartyEventRules" where
  "demo_rules =
     ThirdPartyEventRules_init demo_store
       (None :: ((unit \<Rightarrow> (string, string, string) rules_module) option \<times> unit) option)"

section \<open>Theorems\<close>

subsection \<open>What the reactor's bookkeeping leaves alone\<close>

lemma callLater_fields [simp]:
  "transport (callLater d f w) = transport w"
  "other (callLater d f w) = other w"
  "protocol (callLater d f w) = protocol w"
  "channel (callLater d f w) = channel w"
  "producer_calls (callLater d f w) = producer_calls w"
  "pumps_awaiting (callLater d f w) = pumps_awaiting w"
  "pool_log (callLater d f w) = pool_log w"
  by (simp_all add: callLater_def)

lemma pop_call_fields [simp]:
  "transport (pop_call w) = transport w"
  "other (pop_call w) = other w"
  "protocol (pop_call w) = protocol w"
  "channel (pop_call w) = channel w"
  "producer_calls (pop_call w) = producer_calls w"
  "pumps_awaiting (pop_call w) = pumps_awaiting w"
  "pool_log (pop_call w) = pool_log w"
  by (simp_all add: pop_call_def)

lemma sort_reactor_fields [simp]:
  "transport (sort_reactor w) = transport w"
  "other (sort_reactor w) = other w"
  "protocol (sort_reactor w) = protocol w"
  "channel (sort_reactor w) = channel w"
  "producer_calls (sort_reactor w) = producer_calls w"
  "pumps_awaiting (sort_reactor w) = pumps_awaiting w"
  "pool_log (sort_reactor w) = pool_log w"
  by (simp_all add: sort_reactor_def)

lemma tick_fields [simp]:
  "transport (tick amount w) = transport w"
  "other (tick amount w) = other w"
  "protocol (tick amount w) = protocol w"
  "channel (tick amount w) = channel w"
  "producer_calls (tick amount w) = producer_calls w"
  "pumps_awaiting (tick amount w) = pumps_awaiting w"
  "pool_log (tick amount w) = pool_log w"
  by (simp_all add: tick_def)

text \<open>The pumps and the thread pool touch neither the transport nor its peer.\<close>

lemma transport_produce_frame:
  "transport (state_of (transport_produce w)) = transport w
   \<and> other (state_of (transport_produce w)) = other w"
  by (auto simp: transport_produce_def call_resumeProducing_def Let_def
      split: option.splits resume_ret.splits)

lemma channel_produce_frame:
  "transport (state_of (channel_produce w)) = transport w
   \<and> other (state_of (channel_produce w)) = other w"
  by (auto simp: channel_produce_def call_resumeProducing_def Let_def
      split: option.splits resume_ret.splits)

lemma fire_pool_deferred_frame:
  "transport (state_of (fire_pool_deferred j w)) = transport w
   \<and> other (state_of (fire_pool_deferred j w)) = other w"
  by (auto simp: fire_pool_deferred_def Let_def split: fn_outcome.splits)

subsection \<open>Reassembly\<close>

text \<open>A flush hands over a prefix of the buffer and keeps the rest.\<close>

lemma take_drop_length_take:
  "take k xs @ drop (length (take k xs)) xs = xs"
  by (cases "k \<le> length xs") (simp_all add: min_def)

lemma to_write_of_prefix:
  "to_write_of m buf @ drop (length (to_write_of m buf)) buf = buf"
  by (cases m) (simp_all add: to_write_of_def take_drop_length_take del: length_take)

lemma flush_steady:
  assumes "steady w"
  shows "\<exists>w'. flush m w = Inr w' \<and> steady w' \<and> stream w' = stream w
     \<and> transport_attr (other w') = transport_attr (other w)"
  using assms to_write_of_prefix [of m "buffer (transport w)"]
  by (auto simp: flush_def steady_def stream_def call_dataReceived_def Let_def)

lemma write_steady:
  assumes "steady w"
  shows "\<exists>w'. write' b w = Inr w' \<and> steady w' \<and> stream w' = stream w @ b
     \<and> transport_attr (other w') = transport_attr (other w)"
  using assms
  by (auto simp: write'_def steady_def stream_def Let_def)

lemma writeSequence_steady:
  assumes "steady w"
  shows "\<exists>w'. writeSequence seq w = Inr w' \<and> steady w' \<and> stream w' = stream w @ concat seq
     \<and> transport_attr (other w') = transport_attr (other w)"
  using assms
proof (induction seq arbitrary: w)
  case Nil
  then show ?case by simp
next
  case (Cons x seq)
  from write_steady [OF Cons.prems, of x] obtain w1 where
    w1: "write' x w = Inr w1" "steady w1" "stream w1 = stream w @ x"
      "transport_attr (other w1) = transport_attr (other w)"
    by blast
  from Cons.IH [OF w1(2)] w1 show ?case by auto
qed

lemma run_call_steady:
  assumes "steady w"
  shows "steady (state_of (run_call f w)) \<and> stream (state_of (run_call f w)) = stream w
     \<and> transport_attr (other (state_of (run_call f w))) = transport_attr (other w)"
proof (cases f)
  case FlushCall
  with flush_steady [OF assms, of None] show ?thesis by auto
next
  case TransportProduce
  with assms transport_produce_frame [of w] show ?thesis by (simp add: steady_def stream_def)
next
  case ChannelProduce
  with assms channel_produce_frame [of w] show ?thesis by (simp add: steady_def stream_def)
next
  case (PoolCall j)
  with assms fire_pool_deferred_frame [of j w] show ?thesis by (simp add: steady_def stream_def)
qed

lemma run_next_steady:
  assumes "steady w"
  shows "steady (state_of (run_next w)) \<and> stream (state_of (run_next w)) = stream w
     \<and> transport_attr (other (state_of (run_next w))) = transport_attr (other w)"
proof (cases "next_due w")
  case None
  with assms show ?thesis by (simp add: run_next_def)
next
  case (Some f)
  have p: "steady (pop_call w)" "stream (pop_call w) = stream w"
    using assms by (simp_all add: steady_def stream_def)
  from run_call_steady [OF p(1), of f] p(2) Some show ?thesis
    by (cases "run_call f (pop_call w)") (auto simp: run_next_def steady_def stream_def)
qed

lemma perform_steady:
  assumes "steady w" and "write_or_flush a"
  shows "steady (state_of (perform a w))
     \<and> stream (state_of (perform a w)) = stream w @ written [a]
     \<and> transport_attr (other (state_of (perform a w))) = transport_attr (other w)"
proof (cases a)
  case (Write b)
  with write_steady [OF assms(1), of b] show ?thesis by auto
next
  case (WriteSequence seq)
  with writeSequence_steady [OF assms(1), of seq] show ?thesis by auto
next
  case (Flush m)
  with flush_steady [OF assms(1), of m] show ?thesis by auto
next
  case (Tick amount)
  with assms(1) show ?thesis by (simp add: steady_def stream_def)
next
  case RunNext
  with run_next_steady [OF assms(1)] show ?thesis by simp
qed (use assms(2) in simp_all)

lemma written_Cons: "write_or_flush a \<Longrightarrow> written (a # as) = written [a] @ written as"
  by (cases a) simp_all

lemma exec_steady:
  assumes "steady w" and "\<forall>a \<in> set hist. write_or_flush a"
  shows "steady (exec hist w) \<and> stream (exec hist w) = stream w @ written hist
     \<and> transport_attr (other (exec hist w)) = transport_attr (other w)"
  using assms
proof (induction hist arbitrary: w)
  case Nil
  then show ?case by simp
next
  case (Cons a hist)
  have a: "write_or_flush a" using Cons.prems(2) by simp
  note st = perform_steady [OF Cons.prems(1) a]
  have "\<forall>a \<in> set hist. write_or_flush a" using Cons.prems(2) by simp
  from Cons.IH [OF conjunct1 [OF st] this] st written_Cons [OF a, of hist]
  show ?case by simp
qed

lemma flush_all_steady:
  assumes "steady w" and "transport_attr (other w) \<noteq> None"
  shows "buffer (transport (state_of (flush None w))) = []
     \<and> concat (received (other (state_of (flush None w)))) = stream w"
  using assms
  by (auto simp: flush_def steady_def stream_def call_dataReceived_def Let_def to_write_of_def)

text \<open>
  Claim C1. Take a connected transport whose peer has its transport attached and whose
  peer's \<^verbatim>\<open>dataReceived\<close> never raises, and any history of \<^verbatim>\<open>write\<close> calls interleaved
  with flushes of any \<^verbatim>\<open>maxbytes\<close> (called directly or run by the reactor). Then every
  write is accepted, and the chunks handed to the peer, concatenated and followed by what
  is still buffered, are the bytes present at the start followed by the written bytes in
  call order. One more full flush empties the buffer, and then the chunks handed to the
  peer concatenate to exactly those bytes: for a transport that starts empty, to the
  concatenation of the written byte strings.
\<close>

theorem reassembly:
  assumes "\<not> disconnecting (transport w)" and "\<not> disconnected (transport w)"
    and "transport_attr (other w) \<noteq> None"
    and "\<forall>before chunk. dataReceived_raises (other w) before chunk = None"
    and "\<forall>a \<in> set hist. write_or_flush a"
  shows "concat (received (other (exec hist w))) @ buffer (transport (exec hist w))
           = concat (received (other w)) @ buffer (transport w) @ written hist
    \<and> buffer (transport (state_of (flush None (exec hist w)))) = []
    \<and> concat (received (other (state_of (flush None (exec hist w)))))
           = concat (received (other w)) @ buffer (transport w) @ written hist"
proof -
  have st: "steady w" using assms(1,2,4) by (simp add: steady_def)
  note ex = exec_steady [OF st assms(5)]
  have att: "transport_attr (other (exec hist w)) \<noteq> None" using ex assms(3) by simp
  from flush_all_steady [OF conjunct1 [OF ex] att] ex show ?thesis
    by (simp add: stream_def)
qed

theorem reassembly_witness:
  "concat (received (other (exec [Write ''PI'', Flush (Some 1), Write ''NG'', Tick 0, RunNext]
       (new_world (quiet_protocol (Some 1)) None))))
     @ buffer (transport (exec [Write ''PI'', Flush (Some 1), Write ''NG'', Tick 0, RunNext]
       (new_world (quiet_protocol (Some 1)) None))) = ''PING''
   \<and> buffer (transport (state_of (flush None
       (exec [Write ''PI'', Flush (Some 1), Write ''NG'', Tick 0, RunNext]
         (new_world (quiet_protocol (Some 1)) None))))) = []
   \<and> concat (received (other (state_of (flush None
       (exec [Write ''PI'', Flush (Some 1), Write ''NG'', Tick 0, RunNext]
         (new_world (quiet_protocol (Some 1)) None)))))) = ''PING''"
  using reassembly [of "new_world (quiet_protocol (Some 1)) None"
      "[Write ''PI'', Flush (Some 1), Write ''NG'', Tick 0, RunNext]"]
  by (simp add: new_world_def new_transport_def quiet_protocol_def)

subsection \<open>Closing and closed transports\<close>

lemmas demo_defs = connected_world_def buffered_world_def unconnected_world_def stalled_world_def
  raising_world_def interrupted_world_def aborted_world_def new_world_def new_transport_def quiet_protocol_def raising_protocol_def

lemmas run_defs = write'_def flush_def call_dataReceived_def to_write_of_def callLater_def
  clock_callLater_def sortCalls_def loseConnection_def abortConnection_def notify_connectionLost_def
  tick_def sort_reactor_def run_next_def next_due_def pop_call_def Let_def

lemma notify_connectionLost_frame:
  "transport (state_of (notify_connectionLost reason w)) = transport w
   \<and> other (state_of (notify_connectionLost reason w)) = other w"
  by (auto simp: notify_connectionLost_def Let_def split: option.splits)

lemma loseConnection_closing:
  "disconnecting (transport (state_of (loseConnection reason w)))"
  using notify_connectionLost_frame [of reason "w\<lparr>transport := (transport w)\<lparr>disconnecting := True\<rparr>\<rparr>"]
  by (cases "notify_connectionLost reason (w\<lparr>transport := (transport w)\<lparr>disconnecting := True\<rparr>\<rparr>)")
     (auto simp: loseConnection_def)

lemma write_closing:
  "disconnecting (transport w) \<Longrightarrow>
   write' b w = Inl (PyException ''Writing to disconnecting FakeTransport'', w)"
  by (simp add: write'_def)

lemma writeSequence_closing:
  "disconnecting (transport w) \<Longrightarrow> state_of (writeSequence seq w) = w"
  by (cases seq) (simp_all add: write_closing)

lemma flush_keeps:
  "(disconnecting (transport w) \<longrightarrow> disconnecting (transport (state_of (flush m w))))
   \<and> (disconnected (transport w) \<longrightarrow> state_of (flush m w) = w)"
  by (auto simp: flush_def call_dataReceived_def Let_def split: option.splits)

lemma run_call_keeps:
  "(disconnecting (transport w) \<longrightarrow> disconnecting (transport (state_of (run_call f w))))
   \<and> (disconnected (transport w) \<longrightarrow> disconnected (transport (state_of (run_call f w)))
        \<and> received (other (state_of (run_call f w))) = received (other w))"
proof (cases f)
  case FlushCall
  with flush_keeps [of w None] show ?thesis by auto
next
  case TransportProduce
  with transport_produce_frame [of w] show ?thesis by simp
next
  case ChannelProduce
  with channel_produce_frame [of w] show ?thesis by simp
next
  case (PoolCall j)
  with fire_pool_deferred_frame [of j w] show ?thesis by simp
qed

lemma run_next_keeps:
  "(disconnecting (transport w) \<longrightarrow> disconnecting (transport (state_of (run_next w))))
   \<and> (disconnected (transport w) \<longrightarrow> disconnected (transport (state_of (run_next w)))
        \<and> received (other (state_of (run_next w))) = received (other w))"
proof (cases "next_due w")
  case None
  then show ?thesis by (simp add: run_next_def)
next
  case (Some f)
  with run_call_keeps [of "pop_call w" f] show ?thesis
    by (cases "run_call f (pop_call w)") (auto simp: run_next_def)
qed

lemma write_keeps:
  "(disconnecting (transport w) \<longrightarrow> disconnecting (transport (state_of (write' b w))))
   \<and> (disconnected (transport w) \<longrightarrow> disconnected (transport (state_of (write' b w)))
        \<and> received (other (state_of (write' b w))) = received (other w))"
  by (auto simp: write'_def Let_def)

lemma writeSequence_keeps:
  "(disconnecting (transport w) \<longrightarrow> disconnecting (transport (state_of (writeSequence seq w))))
   \<and> (disconnected (transport w) \<longrightarrow> disconnected (transport (state_of (writeSequence seq w)))
        \<and> received (other (state_of (writeSequence seq w))) = received (other w))"
proof (induction seq arbitrary: w)
  case Nil
  then show ?case by simp
next
  case (Cons x seq)
  show ?case
  proof (cases "write' x w")
    case (Inl ew)
    with write_keeps [of w x] show ?thesis by (cases ew) auto
  next
    case (Inr w1)
    with write_keeps [of w x] Cons.IH [of w1] show ?thesis by auto
  qed
qed

lemma loseConnection_keeps:
  "(disconnecting (transport w) \<longrightarrow> disconnecting (transport (state_of (loseConnection reason w))))
   \<and> (disconnected (transport w) \<longrightarrow> disconnected (transport (state_of (loseConnection reason w)))
        \<and> received (other (state_of (loseConnection reason w))) = received (other w))"
  using notify_connectionLost_frame [of reason "w\<lparr>transport := (transport w)\<lparr>disconnecting := True\<rparr>\<rparr>"]
  by (cases "notify_connectionLost reason (w\<lparr>transport := (transport w)\<lparr>disconnecting := True\<rparr>\<rparr>)")
     (auto simp: loseConnection_def)

lemma abortConnection_keeps:
  "(disconnecting (transport w) \<longrightarrow> disconnecting (transport (state_of (abortConnection w))))
   \<and> (disconnected (transport w) \<longrightarrow> disconnected (transport (state_of (abortConnection w)))
        \<and> received (other (state_of (abortConnection w))) = received (other w))"
  using notify_connectionLost_frame [of None "w\<lparr>transport := (transport w)\<lparr>disconnecting := True\<rparr>\<rparr>"]
  by (cases "notify_connectionLost None (w\<lparr>transport := (transport w)\<lparr>disconnecting := True\<rparr>\<rparr>)")
     (auto simp: abortConnection_def)

lemma perform_keeps:
  "(disconnecting (transport w) \<longrightarrow> disconnecting (transport (state_of (perform a w))))
   \<and> (disconnected (transport w) \<longrightarrow> disconnected (transport (state_of (perform a w)))
        \<and> received (other (state_of (perform a w))) = received (other w))"
proof (cases a)
  case (Write b)
  with write_keeps [of w b] show ?thesis by simp
next
  case (WriteSequence seq)
  with writeSequence_keeps [of w seq] show ?thesis by simp
next
  case (Flush m)
  with flush_keeps [of w m] show ?thesis by auto
next
  case (LoseConnection reason)
  with loseConnection_keeps [of w reason] show ?thesis by simp
next
  case AbortConnection
  with abortConnection_keeps [of w] show ?thesis by simp
next
  case PauseProducing
  then show ?thesis by (auto simp: pauseProducing_def split: option.splits)
next
  case ResumeProducing
  then show ?thesis by (auto simp: resumeProducing_def call_resumeProducing_def Let_def split: option.splits resume_ret.splits)
next
  case (RegisterProducer p s)
  then show ?thesis by (auto simp: registerProducer_def Let_def)
next
  case UnregisterProducer
  then show ?thesis by (auto simp: unregisterProducer_def split: option.splits)
next
  case ProducerDeferredFires
  then show ?thesis by (auto simp: producer_deferred_fires_def)
next
  case (ChannelRegisterProducer p s)
  then show ?thesis by (auto simp: channel_registerProducer_def Let_def)
next
  case ChannelUnregisterProducer
  then show ?thesis by (auto simp: channel_unregisterProducer_def split: option.splits)
next
  case (CallInThreadWithCallback j)
  then show ?thesis by (auto simp: callInThreadWithCallback_def)
next
  case (OtherMakeConnection t)
  then show ?thesis by (auto simp: other_makeConnection_def)
next
  case (Tick amount)
  then show ?thesis by simp
next
  case RunNext
  with run_next_keeps [of w] show ?thesis by simp
qed


lemma exec_keeps:
  "(disconnecting (transport w) \<longrightarrow> disconnecting (transport (exec hist w)))
   \<and> (disconnected (transport w) \<longrightarrow> disconnected (transport (exec hist w))
        \<and> received (other (exec hist w)) = received (other w))"
proof (induction hist arbitrary: w)
  case Nil
  then show ?case by simp
next
  case (Cons a hist)
  from perform_keeps [of w a] Cons.IH [of "state_of (perform a w)"] show ?case by simp
qed

lemma perform_write_closing:
  assumes "disconnecting (transport w)" and "is_write a"
  shows "state_of (perform a w) = w"
  using assms by (cases a) (simp_all add: write_closing writeSequence_closing)

lemma exec_without_writes:
  assumes "disconnecting (transport w)"
  shows "exec hist w = exec (filter (\<lambda>a. \<not> is_write a) hist) w"
  using assms
proof (induction hist arbitrary: w)
  case Nil
  then show ?case by simp
next
  case (Cons a hist)
  show ?case
  proof (cases "is_write a")
    case True
    with Cons perform_write_closing [OF Cons.prems True] show ?thesis by simp
  next
    case False
    have "disconnecting (transport (state_of (perform a w)))"
      using perform_keeps [of w a] Cons.prems by simp
    from Cons.IH [OF this] False show ?thesis by simp
  qed
qed

text \<open>
  Claim C2. Once \<^verbatim>\<open>loseConnection\<close> has been called (whether it returned or its
  notification raised), then after any further history every \<^verbatim>\<open>write\<close> raises
  \<^verbatim>\<open>Exception("Writing to disconnecting FakeTransport")\<close> and leaves the world as it was;
  so the world a history leads to, the chunks handed to the peer included, is the one the
  history without its writes leads to: no byte of a later write is ever delivered.
\<close>

theorem write_after_loseConnection:
  "write' byt (exec hist (state_of (loseConnection reason w)))
     = Inl (PyException ''Writing to disconnecting FakeTransport'',
            exec hist (state_of (loseConnection reason w)))
   \<and> exec hist (state_of (loseConnection reason w))
     = exec (filter (\<lambda>a. \<not> is_write a) hist) (state_of (loseConnection reason w))"
proof -
  have c: "disconnecting (transport (state_of (loseConnection reason w)))"
    by (rule loseConnection_closing)
  have "disconnecting (transport (exec hist (state_of (loseConnection reason w))))"
    using exec_keeps [of "state_of (loseConnection reason w)" hist] c by simp
  from write_closing [OF this] exec_without_writes [OF c] show ?thesis by simp
qed

theorem write_after_loseConnection_witness:
  "write' ''late'' (exec [Write ''more'', Flush None] (state_of (loseConnection None buffered_world)))
     = Inl (PyException ''Writing to disconnecting FakeTransport'',
         exec [Write ''more'', Flush None] (state_of (loseConnection None buffered_world)))
   \<and> exec [Write ''more'', Flush None] (state_of (loseConnection None buffered_world))
     = exec [Flush None] (state_of (loseConnection None buffered_world))
   \<and> received (other (exec [Write ''more'', Flush None] (state_of (loseConnection None buffered_world))))
     = [''abc'']"
proof -
  note t = write_after_loseConnection [of "''late''" "[Write ''more'', Flush None]" None buffered_world]
  have f: "filter (\<lambda>a. \<not> is_write a) [Write ''more'', Flush None] = [Flush None]"
    by simp
  have e: "exec [Write ''more'', Flush None] (state_of (loseConnection None buffered_world))
      = exec [Flush None] (state_of (loseConnection None buffered_world))"
    using conjunct2 [OF t] unfolding f .
  have "received (other (exec [Flush None] (state_of (loseConnection None buffered_world)))) = [''abc'']"
    by (simp add: demo_defs run_defs)
  then have r: "received (other (exec [Write ''more'', Flush None]
      (state_of (loseConnection None buffered_world)))) = [''abc'']"
    unfolding e .
  from conjunct1 [OF t] e r show ?thesis by blast
qed

text \<open>
  Claim C4. When \<^verbatim>\<open>abortConnection\<close> returns, \<^verbatim>\<open>disconnected\<close> is set although the
  buffer is as full as before; a second call returns and changes nothing; and whatever
  happens afterwards, the peer's \<^verbatim>\<open>dataReceived\<close> is never called again, so the bytes
  still buffered are never delivered.
\<close>

theorem abortConnection_discards:
  assumes "abortConnection w = Inr w1"
  shows "disconnected (transport w1)
    \<and> buffer (transport w1) = buffer (transport w)
    \<and> abortConnection w1 = Inr w1
    \<and> (\<forall>hist. received (other (exec hist w1)) = received (other w)
         \<and> disconnected (transport (exec hist w1)))"
proof -
  note fr = notify_connectionLost_frame [of None "w\<lparr>transport := (transport w)\<lparr>disconnecting := True\<rparr>\<rparr>"]
  have d: "disconnected (transport w1) \<and> disconnecting (transport w1)
      \<and> buffer (transport w1) = buffer (transport w) \<and> received (other w1) = received (other w)"
    using assms fr
    by (cases "notify_connectionLost None (w\<lparr>transport := (transport w)\<lparr>disconnecting := True\<rparr>\<rparr>)")
       (auto simp: abortConnection_def split: if_splits)
  have i: "abortConnection w1 = Inr w1"
    using d by (simp add: abortConnection_def)
  from d i exec_keeps [of w1] show ?thesis by simp
qed


theorem abortConnection_discards_witness:
  "abortConnection buffered_world = Inr aborted_world
   \<and> buffer (transport aborted_world) = ''abc''
   \<and> disconnected (transport aborted_world)
   \<and> abortConnection aborted_world = Inr aborted_world
   \<and> (\<forall>hist. received (other (exec hist aborted_world)) = []
        \<and> disconnected (transport (exec hist aborted_world)))"
proof -
  have a: "abortConnection buffered_world = Inr aborted_world"
    by (simp add: demo_defs run_defs)
  have b: "buffer (transport buffered_world) = ''abc''" "received (other buffered_world) = []"
    by (simp_all add: demo_defs run_defs)
  from abortConnection_discards [OF a] a b show ?thesis by simp
qed

subsection \<open>Flushing\<close>

text \<open>
  Claim C5, as stated, fails: the handler in \<^verbatim>\<open>flush\<close> is \<^verbatim>\<open>except Exception\<close>. When the
  peer's \<^verbatim>\<open>dataReceived\<close> raises a \<^verbatim>\<open>KeyboardInterrupt\<close> (a \<^verbatim>\<open>BaseException\<close> that is
  not an \<^verbatim>\<open>Exception\<close>) during a flush, the exception propagates out of \<^verbatim>\<open>flush\<close>.
\<close>

theorem flush_contains_peer_exception_counterexample:
  "buffer (transport interrupted_world) \<noteq> []
   \<and> \<not> disconnected (transport interrupted_world)
   \<and> transport_attr (other interrupted_world) \<noteq> None
   \<and> dataReceived_raises (other interrupted_world) (received (other interrupted_world))
        (to_write_of None (buffer (transport interrupted_world)))
      = Some (PyBaseException ''KeyboardInterrupt'')
   \<and> raised (flush None interrupted_world) = Some (PyBaseException ''KeyboardInterrupt'')"
  by (simp add: demo_defs run_defs)

text \<open>
  Claim C5, amended. When the peer's \<^verbatim>\<open>dataReceived\<close> raises an instance of
  \<^verbatim>\<open>Exception\<close> during a flush, \<^verbatim>\<open>flush\<close> returns normally and the transport is as it
  was before: the buffer, \<^verbatim>\<open>disconnecting\<close> and \<^verbatim>\<open>disconnected\<close> are unchanged.
\<close>

theorem flush_contains_peer_exception:
  assumes "buffer (transport w) \<noteq> []" and "\<not> disconnected (transport w)"
    and "transport_attr (other w) \<noteq> None"
    and "dataReceived_raises (other w) (received (other w))
           (to_write_of maxbytes (buffer (transport w))) = Some e"
    and "is_Exception e"
  shows "\<exists>w'. flush maxbytes w = Inr w'
     \<and> received (other w') = received (other w) @ [to_write_of maxbytes (buffer (transport w))]
     \<and> buffer (transport w') = buffer (transport w)
     \<and> disconnecting (transport w') = disconnecting (transport w)
     \<and> disconnected (transport w') = disconnected (transport w)
     \<and> transport w' = transport w"
  using assms by (simp add: flush_def call_dataReceived_def Let_def)

theorem flush_contains_peer_exception_witness:
  "buffer (transport raising_world) = ''abc''
   \<and> \<not> disconnected (transport raising_world)
   \<and> transport_attr (other raising_world) \<noteq> None
   \<and> (\<exists>w'. flush (Some 2) raising_world = Inr w'
     \<and> received (other w') = [''ab'']
     \<and> buffer (transport w') = ''abc''
     \<and> disconnecting (transport w') = disconnecting (transport raising_world)
     \<and> disconnected (transport w') = disconnected (transport raising_world)
     \<and> transport w' = transport raising_world)"
proof -
  have h: "buffer (transport raising_world) \<noteq> []" "\<not> disconnected (transport raising_world)"
    "transport_attr (other raising_world) \<noteq> None"
    "dataReceived_raises (other raising_world) (received (other raising_world))
       (to_write_of (Some 2) (buffer (transport raising_world))) = Some (PyException ''boom'')"
    "is_Exception (PyException ''boom'')"
    by (simp_all add: demo_defs run_defs)
  have v: "buffer (transport raising_world) = ''abc''" "received (other raising_world) = []"
    "to_write_of (Some 2) ''abc'' = ''ab''"
    by (simp_all add: demo_defs run_defs)
  from flush_contains_peer_exception [OF h] h(2,3) v show ?thesis by simp
qed

text \<open>
  Claim C6, as stated, fails: a transport made with \<^verbatim>\<open>autoflush=False\<close>, with a
  non-empty buffer, not disconnected, whose peer's \<^verbatim>\<open>transport\<close> is \<^verbatim>\<open>None\<close>: \<^verbatim>\<open>flush\<close>
  returns without scheduling anything.
\<close>

theorem flush_without_peer_transport_counterexample:
  "buffer (transport stalled_world) \<noteq> []
   \<and> \<not> disconnected (transport stalled_world)
   \<and> transport_attr (other stalled_world) = None
   \<and> flush None stalled_world = Inr stalled_world
   \<and> calls (reactor (state_of (flush None stalled_world))) = []"
  by (simp add: stalled_world_def new_world_def new_transport_def quiet_protocol_def flush_def)

lemma callLater_scheduled:
  "(rightNow (reactor w) + d, f) \<in> set (calls (reactor (callLater d f w)))"
  by (simp add: callLater_def clock_callLater_def sortCalls_def)

text \<open>
  Claim C6, amended. For a transport with a non-empty buffer that is not disconnected and
  whose peer's \<^verbatim>\<open>transport\<close> is \<^verbatim>\<open>None\<close>, \<^verbatim>\<open>flush\<close> delivers nothing and leaves the
  buffer unchanged; when \<^verbatim>\<open>autoflush\<close> is set it schedules itself again at delay 0, and
  when \<^verbatim>\<open>autoflush\<close> is not set it schedules nothing.
\<close>

theorem flush_without_peer_transport:
  assumes "buffer (transport w) \<noteq> []" and "\<not> disconnected (transport w)"
    and "transport_attr (other w) = None"
  shows "(autoflush (transport w) \<longrightarrow>
            flush maxbytes w = Inr (callLater 0 FlushCall w)
          \<and> (rightNow (reactor w), FlushCall) \<in> set (calls (reactor (state_of (flush maxbytes w)))))
     \<and> (\<not> autoflush (transport w) \<longrightarrow> flush maxbytes w = Inr w)
     \<and> received (other (state_of (flush maxbytes w))) = received (other w)
     \<and> buffer (transport (state_of (flush maxbytes w))) = buffer (transport w)"
  using assms callLater_scheduled [of w 0 FlushCall] by (simp add: flush_def)

theorem flush_without_peer_transport_witness:
  "autoflush (transport unconnected_world)
   \<and> flush None unconnected_world = Inr (callLater 0 FlushCall unconnected_world)
   \<and> (rightNow (reactor unconnected_world), FlushCall)
        \<in> set (calls (reactor (state_of (flush None unconnected_world))))
   \<and> received (other (state_of (flush None unconnected_world))) = received (other unconnected_world)
   \<and> buffer (transport (state_of (flush None unconnected_world))) = buffer (transport unconnected_world)
   \<and> buffer (transport unconnected_world) = ''abc''"
proof -
  have h: "buffer (transport unconnected_world) \<noteq> []" "\<not> disconnected (transport unconnected_world)"
    "transport_attr (other unconnected_world) = None"
    by (simp_all add: demo_defs run_defs)
  have v: "autoflush (transport unconnected_world)" "buffer (transport unconnected_world) = ''abc''"
    by (simp_all add: demo_defs run_defs)
  from flush_without_peer_transport [OF h, of None] v show ?thesis by blast
qed

subsection \<open>The thread pool\<close>

lemmas clock_defs = advance_def tick_def sort_reactor_def sortCalls_def next_due_def pop_call_def
  callLater_def clock_callLater_def Let_def

text \<open>
  Claim C3, as stated, fails in its last part: \<^verbatim>\<open>onResult\<close> is not run by a second
  scheduled call. After a submission on an idle reactor one call is scheduled; when the
  reactor has run that one call, the function and \<^verbatim>\<open>onResult\<close> have both been called and
  nothing is scheduled.
\<close>

theorem callInThreadWithCallback_two_hops_counterexample:
  "callInThreadWithCallback demo_job connected_world = Inr submitted_world
   \<and> pool_log submitted_world = []
   \<and> calls (reactor submitted_world) = [(0, PoolCall demo_job)]
   \<and> run_next submitted_world = Inr job_done_world
   \<and> pool_log job_done_world = [FunctionCalled 7, OnResult 7 True (Value ''ok'')]
   \<and> calls (reactor job_done_world) = []"
  by (simp add: submitted_world_def job_done_world_def demo_job_def demo_defs
      callInThreadWithCallback_def fire_pool_deferred_def run_next_def clock_defs)

text \<open>
  Claim C3, amended. \<^verbatim>\<open>callInThreadWithCallback(onResult, function)\<close> calls nothing
  itself and schedules one call at delay 0. Whenever the reactor runs that call, the
  function is called and then \<^verbatim>\<open>onResult\<close>, once, with \<^verbatim>\<open>(True, result)\<close> after a normal
  return and \<^verbatim>\<open>(False, failure)\<close> after a raise, and nothing more is scheduled: there is
  one hop, not two. On an idle reactor the next \<^verbatim>\<open>advance\<close> does exactly that and leaves
  nothing scheduled.
\<close>

theorem callInThreadWithCallback_single_hop:
  assumes "calls (reactor w) = []" and "0 \<le> amount"
  shows "\<exists>w1 w2. callInThreadWithCallback j w = Inr w1
     \<and> pool_log w1 = pool_log w
     \<and> calls (reactor w1) = [(rightNow (reactor w), PoolCall j)]
     \<and> advance (Suc fuel) amount w1 = Some (Inr w2)
     \<and> calls (reactor w2) = []
     \<and> pool_log w2 = pool_log w @
          [FunctionCalled (job_id j),
           (case func j of
              Returns v \<Rightarrow> OnResult (job_id j) True (Value v)
            | Raises e \<Rightarrow> OnResult (job_id j) False (Failure e))]
     \<and> (\<forall>w'. \<exists>w''. run_call (PoolCall j) w' = Inr w'' \<and> reactor w'' = reactor w'
           \<and> pool_log w'' = pool_log w' @
               [FunctionCalled (job_id j),
                (case func j of
                   Returns v \<Rightarrow> OnResult (job_id j) True (Value v)
                 | Raises e \<Rightarrow> OnResult (job_id j) False (Failure e))])"
  using assms
  by (cases "func j")
     (simp_all add: callInThreadWithCallback_def fire_pool_deferred_def clock_defs)

theorem callInThreadWithCallback_single_hop_witness:
  "(\<exists>w1 w2. callInThreadWithCallback demo_job connected_world = Inr w1
     \<and> pool_log w1 = []
     \<and> calls (reactor w1) = [(0, PoolCall demo_job)]
     \<and> advance 1 0 w1 = Some (Inr w2)
     \<and> calls (reactor w2) = []
     \<and> pool_log w2 = [FunctionCalled 7, OnResult 7 True (Value ''ok'')])
   \<and> (\<exists>w1 w2. callInThreadWithCallback failing_job connected_world = Inr w1
     \<and> advance 1 (1 / 10) w1 = Some (Inr w2)
     \<and> pool_log w2 = [FunctionCalled 8, OnResult 8 False (Failure (PyException ''no''))])"
proof -
  have h: "calls (reactor connected_world) = []" "(0::rat) \<le> 0" "(0::rat) \<le> 1 / 10"
    by (simp_all add: demo_defs)
  have v: "pool_log connected_world = []" "rightNow (reactor connected_world) = 0"
    "job_id demo_job = 7" "func demo_job = Returns ''ok''"
    "job_id failing_job = 8" "func failing_job = Raises (PyException ''no'')"
    by (simp_all add: demo_defs demo_job_def failing_job_def)
  from callInThreadWithCallback_single_hop [OF h(1,2), of demo_job 0]
    callInThreadWithCallback_single_hop [OF h(1,3), of failing_job 0] v
  show ?thesis by (simp del: run_call.simps) blast
qed

subsection \<open>Producers\<close>









text \<open>
  The \<^verbatim>\<open>_produce\<close> of \<^verbatim>\<open>FakeTransport\<close> does not test \<^verbatim>\<open>self.producer\<close>: the pump that
  is pending when \<^verbatim>\<open>unregisterProducer\<close> is called raises \<^verbatim>\<open>AttributeError\<close> out of
  \<^verbatim>\<open>advance\<close>.
\<close>

lemma transport_pump_crashes:
  assumes "calls (reactor w) = [(d, TransportProduce)]"
    and "d \<le> rightNow (reactor w) + amount"
    and "producer (transport w) = Some p"
  shows "\<exists>w1 w2. unregisterProducer w = Inr w1
     \<and> advance (Suc fuel) amount w1 = Some (Inl (AttributeError ''resumeProducing'', w2))
     \<and> producer_calls w2 = producer_calls w"
  using assms by (simp add: unregisterProducer_def transport_produce_def clock_defs)









subsection \<open>Waiting for a request\<close>

lemma raised_None_ex: "raised r = None \<Longrightarrow> \<exists>s. r = Inr s"
  by (cases r) auto

lemma resume_if_Inr:
  "never_raises env \<Longrightarrow> \<exists>s1. resume_if_producer env s = Inr s1"
  by (simp add: resume_if_producer_def never_raises_def raised_None_ex)

lemma advance_Inr:
  "never_raises env \<Longrightarrow> \<exists>s2. clock_advance env d s = Inr s2"
  by (simp add: never_raises_def raised_None_ex)

lemma wait_loop_round:
  assumes "never_raises env" and "\<not> request_finished env s" and "\<not> x + 1 > timeout"
  shows "wait_loop env timeout x s = wait_loop env timeout (x + 1) (round_of env s)"
proof -
  from resume_if_Inr [OF assms(1)] obtain s1 where s1: "resume_if_producer env s = Inr s1" by blast
  from advance_Inr [OF assms(1)] obtain s2 where s2: "clock_advance env (1 / 10) s1 = Inr s2" by blast
  have "round_of env s = s2" by (simp add: round_of_def s1 s2)
  then show ?thesis using assms(2,3) s1 s2 by (subst wait_loop.simps) simp
qed

lemma wait_loop_last:
  assumes "never_raises env" and "\<not> request_finished env s" and "x + 1 > timeout"
  shows "wait_loop env timeout x s =
     Inl (TimedOutException ''Timed out waiting for request to finish.'',
          state_of (resume_if_producer env s))"
proof -
  from resume_if_Inr [OF assms(1)] obtain s1 where s1: "resume_if_producer env s = Inr s1" by blast
  then show ?thesis using assms(2,3) by (subst wait_loop.simps) simp
qed

lemma wait_loop_times_out:
  assumes "never_raises env"
    and "\<forall>k \<le> n. \<not> request_finished env ((round_of env ^^ k) s)"
    and "n = nat (timeout - x)"
  shows "wait_loop env timeout x s =
     Inl (TimedOutException ''Timed out waiting for request to finish.'',
          state_of (resume_if_producer env ((round_of env ^^ n) s)))"
  using assms(2,3)
proof (induction n arbitrary: x s)
  case 0
  then have "\<not> request_finished env s" "x + 1 > timeout" by auto
  from wait_loop_last [OF assms(1) this] show ?case by simp
next
  case (Suc n)
  have nf: "\<not> request_finished env s" using Suc.prems(1) by (metis funpow_0 le0)
  have le: "\<not> x + 1 > timeout" using Suc.prems(2) by linarith
  have n: "n = nat (timeout - (x + 1))" using Suc.prems(2) by linarith
  have "\<forall>k \<le> n. \<not> request_finished env ((round_of env ^^ k) (round_of env s))"
  proof (intro allI impI)
    fix k assume "k \<le> n"
    then have "\<not> request_finished env ((round_of env ^^ Suc k) s)" using Suc.prems(1) by (meson Suc_le_mono)
    then show "\<not> request_finished env ((round_of env ^^ k) (round_of env s))"
      by (simp add: funpow_swap1)
  qed
  from Suc.IH [OF this n] 
  have ih: "wait_loop env timeout (x + 1) (round_of env s) =
     Inl (TimedOutException ''Timed out waiting for request to finish.'',
          state_of (resume_if_producer env ((round_of env ^^ Suc n) s)))"
    by (simp add: funpow_swap1)
  show ?case
    using wait_loop_round [OF assms(1) nf le] ih by simp
qed

lemma wait_loop_finishes:
  assumes "never_raises env"
    and "request_finished env ((round_of env ^^ k) s)"
    and "\<forall>i < k. \<not> request_finished env ((round_of env ^^ i) s)"
    and "int k \<le> timeout - x"
  shows "wait_loop env timeout x s = Inr ((round_of env ^^ k) s)"
  using assms(2,3,4)
proof (induction k arbitrary: x s)
  case 0
  then show ?case by (subst wait_loop.simps) simp
next
  case (Suc k)
  have nf: "\<not> request_finished env s" using Suc.prems(2) by (metis funpow_0 zero_less_Suc)
  have le: "\<not> x + 1 > timeout" using Suc.prems(3) by linarith
  have a: "request_finished env ((round_of env ^^ k) (round_of env s))"
    using Suc.prems(1) by (simp add: funpow_swap1)
  have b: "\<forall>i < k. \<not> request_finished env ((round_of env ^^ i) (round_of env s))"
  proof (intro allI impI)
    fix i assume "i < k"
    then have "\<not> request_finished env ((round_of env ^^ Suc i) s)" using Suc.prems(2) by (meson Suc_less_eq)
    then show "\<not> request_finished env ((round_of env ^^ i) (round_of env s))"
      by (simp add: funpow_swap1)
  qed
  have c: "int k \<le> timeout - (x + 1)" using Suc.prems(3) by linarith
  from Suc.IH [OF a b c]
  have ih: "wait_loop env timeout (x + 1) (round_of env s) = Inr ((round_of env ^^ Suc k) s)"
    by (simp add: funpow_swap1)
  show ?case
    using wait_loop_round [OF assms(1) nf le] ih by simp
qed


text \<open>
  Claim C8. Let no call of the environment raise and the timeout be non-negative. If the
  request is not finished after any of the first \<open>timeout\<close> rounds (nor at the start),
  \<^verbatim>\<open>wait_until_result\<close> raises \<^verbatim>\<open>TimedOutException\<close> in the state reached by exactly
  \<open>timeout\<close> rounds, each with one \<^verbatim>\<open>clock.advance(0.1)\<close>, and one more resuming of
  the producer. If the request is first finished after \<open>k \<le> timeout\<close> rounds,
  \<^verbatim>\<open>wait_until_result\<close> returns after those \<open>k\<close> rounds and raises nothing.
\<close>

theorem wait_until_result_timeout:
  assumes "never_raises env"
    and "clock_run env s = Inr s0"
    and "0 \<le> timeout"
  shows "((\<forall>k \<le> nat timeout. \<not> request_finished env ((round_of env ^^ k) s0)) \<longrightarrow>
           wait_until_result env timeout s =
             Inl (TimedOutException ''Timed out waiting for request to finish.'',
                  state_of (resume_if_producer env ((round_of env ^^ nat timeout) s0))))
     \<and> (\<forall>k \<le> nat timeout. request_finished env ((round_of env ^^ k) s0) \<longrightarrow>
           (\<forall>i < k. \<not> request_finished env ((round_of env ^^ i) s0)) \<longrightarrow>
           wait_until_result env timeout s = Inr ((round_of env ^^ k) s0))"
proof (intro conjI allI impI)
  assume "\<forall>k \<le> nat timeout. \<not> request_finished env ((round_of env ^^ k) s0)"
  from wait_loop_times_out [OF assms(1) this, of timeout 0] assms(2)
  show "wait_until_result env timeout s =
      Inl (TimedOutException ''Timed out waiting for request to finish.'',
           state_of (resume_if_producer env ((round_of env ^^ nat timeout) s0)))"
    by (simp add: wait_until_result_def)
next
  fix k
  assume k: "k \<le> nat timeout" and f: "request_finished env ((round_of env ^^ k) s0)"
    and nf: "\<forall>i < k. \<not> request_finished env ((round_of env ^^ i) s0)"
  have "int k \<le> timeout - 0" using k assms(3) by linarith
  from wait_loop_finishes [OF assms(1) f nf this] assms(2)
  show "wait_until_result env timeout s = Inr ((round_of env ^^ k) s0)"
    by (simp add: wait_until_result_def)
qed

lemma counting_round: "(round_of (counting_env d) ^^ k) n = n + k"
  by (induction k) (simp_all add: round_of_def counting_env_def resume_if_producer_def)

theorem wait_until_result_timeout_witness:
  "wait_until_result (counting_env None) 100 0
     = Inl (TimedOutException ''Timed out waiting for request to finish.'', 100)
   \<and> wait_until_result (counting_env (Some 3)) 100 0 = Inr 3"
proof -
  have nr: "never_raises (counting_env None)" "never_raises (counting_env (Some 3))"
    by (simp_all add: never_raises_def counting_env_def)
  have run: "clock_run (counting_env None) 0 = Inr 0" "clock_run (counting_env (Some 3)) 0 = Inr 0"
    by (simp_all add: counting_env_def)
  have tm: "(0::int) \<le> 100" by simp
  have nf: "\<forall>k \<le> nat 100. \<not> request_finished (counting_env None) ((round_of (counting_env None) ^^ k) 0)"
    by (simp add: counting_env_def)
  have f1: "request_finished (counting_env (Some 3)) ((round_of (counting_env (Some 3)) ^^ 3) 0)"
    unfolding counting_round by (simp add: counting_env_def)
  have f2: "i < 3 \<Longrightarrow> \<not> request_finished (counting_env (Some 3)) ((round_of (counting_env (Some 3)) ^^ i) 0)" for i
    unfolding counting_round by (simp add: counting_env_def)
  have k3: "(3::nat) \<le> nat 100" by simp
  note a = wait_until_result_timeout [OF nr(1) run(1) tm, THEN conjunct1, rule_format, OF nf [rule_format]]
  note b = wait_until_result_timeout [OF nr(2) run(2) tm, THEN conjunct2, rule_format, OF k3 f1 f2]
  have c: "state_of (resume_if_producer (counting_env None) ((round_of (counting_env None) ^^ nat 100) 0)) = 100"
    unfolding counting_round by (simp add: resume_if_producer_def counting_env_def)
  have d: "(round_of (counting_env (Some 3)) ^^ 3) 0 = 3"
    unfolding counting_round by simp
  from a b show ?thesis unfolding c d by blast
qed

subsection \<open>The resolver\<close>

text \<open>
  Claim C9. A lookup of a name that is in the \<^verbatim>\<open>lookups\<close> table succeeds with the mapped
  address; a lookup of a name that is not in the table fails with a \<^verbatim>\<open>DNSLookupError\<close>,
  and is never a success, whatever the result.
\<close>

theorem getHostByName_table:
  assumes "lookups present = Some a" and "lookups absent = None"
  shows "getHostByName lookups present = succeed a
    \<and> getHostByName lookups absent = fail (DNSLookupError (''OH NO: unknown '' @ absent))
    \<and> (\<forall>r. getHostByName lookups absent \<noteq> succeed r)"
  using assms by (simp add: getHostByName_def)

theorem getHostByName_table_witness:
  "getHostByName [''example.test'' \<mapsto> ''10.0.0.5''] ''example.test'' = succeed ''10.0.0.5''
   \<and> getHostByName [''example.test'' \<mapsto> ''10.0.0.5''] ''nope.test''
       = fail (DNSLookupError ''OH NO: unknown nope.test'')
   \<and> (\<forall>r. getHostByName [''example.test'' \<mapsto> ''10.0.0.5''] ''nope.test'' \<noteq> succeed r)"
  using getHostByName_table [of "[''example.test'' \<mapsto> ''10.0.0.5'']" "''example.test''"
      "''10.0.0.5''" "''nope.test''"]
  by simp

subsection \<open>The rules hook with no module configured\<close>

text \<open>
  Claim C10. When no third-party rules module is configured (\<^verbatim>\<open>third_party_rules\<close> is
  \<^verbatim>\<open>None\<close>), \<^verbatim>\<open>check_event_allowed\<close>, \<^verbatim>\<open>on_create_room\<close>,
  \<^verbatim>\<open>check_threepid_can_be_invited\<close> and
  \<^verbatim>\<open>check_room_can_be_added_to_public_rooms_directory\<close> each return \<^verbatim>\<open>True\<close> for all
  inputs and make no call to the store.
\<close>

theorem no_module_allows_everything:
  assumes "third_party_rules self = None"
  shows "check_event_allowed self event prev_state_ids = (Inr True, [])
    \<and> on_create_room self requester config is_requester_admin = (Inr True, [])
    \<and> check_threepid_can_be_invited self medium address rid = (Inr True, [])
    \<and> check_room_can_be_added_to_public_rooms_directory self rid = (Inr True, [])"
  using assms
  by (simp add: check_event_allowed_def on_create_room_def
      check_threepid_can_be_invited_def check_room_can_be_added_to_public_rooms_directory_def)

theorem no_module_allows_everything_witness:
  "third_party_rules demo_rules = None
   \<and> check_event_allowed demo_rules ''ev'' [((''m.room.create'', []), ''$e1'')] = (Inr True, [])
   \<and> on_create_room demo_rules ''@alice:test'' ''cfg'' False = (Inr True, [])
   \<and> check_threepid_can_be_invited demo_rules ''email'' ''a@b.c'' ''!room:test'' = (Inr True, [])
   \<and> check_room_can_be_added_to_public_rooms_directory demo_rules ''!room:test'' = (Inr True, [])"
proof -
  have none: "third_party_rules demo_rules = None"
    by (simp add: demo_rules_def ThirdPartyEventRules_init_def)
  show ?thesis
    using none no_module_allows_everything [OF none, of "''ev''" "[((''m.room.create'', []), ''$e1'')]"
        "''@alice:test''" "''cfg''" False "''email''" "''a@b.c''" "''!room:test''"]
    by simp
qed

end
